theory Spec2Isabelle
  imports Complex_Main
begin

section \<open>Fetch the Bone: the simulation core of game.js\<close>

text \<open>
  The script keeps its whole state in module-level variables and mutates them from the
  frame callback \<^verbatim>\<open>update\<close> and from DOM event listeners. The model gathers those
  variables in one record and passes it through every function.

  JavaScript numbers are modelled exactly: coordinates, velocities and the spawn interval
  as \<^typ>\<open>real\<close>, the counters \<^verbatim>\<open>score\<close> and \<^verbatim>\<open>lives\<close> as \<^typ>\<open>int\<close>, the frame
  counter \<^verbatim>\<open>spawnTimer\<close> as \<^typ>\<open>nat\<close>. Rounding of doubles and infinities are
  outside the model. NaN can enter the state in one place only, the coordinate the hand
  tracker delivers; the record holds a number there, and the subsection on JavaScript
  numbers below gives the player update for a coordinate that is NaN. The record fields
  carry a prefix (\<open>b_\<close> for a bone, \<open>p_\<close> for the
  player) because a field called \<open>x\<close> or \<open>size\<close> would capture those names everywhere.
\<close>

subsection \<open>Data\<close>

text \<open>The canvas size is read once from the page (\<^verbatim>\<open>canvas.width\<close>, \<^verbatim>\<open>canvas.height\<close>);
  the page is not part of the sources, so both are parameters.\<close>

record canvas =
  CANVAS_W :: real
  CANVAS_H :: real

record bone =
  b_x :: real
  b_y :: real
  b_vy :: real
  b_size :: real

record player =
  p_x :: real
  p_y :: real
  p_w :: real
  p_h :: real
  p_speed :: real

text \<open>What one call of \<^verbatim>\<open>draw\<close> reads and paints: the bones, the player, the two
  counters, and the position of the hand indicator when hand control is on.\<close>

record frame =
  f_bones :: "bone list"
  f_player :: player
  f_score :: int
  f_lives :: int
  f_hand :: "real option"

text \<open>The module-level variables, followed by what the script writes to the outside:
  the numbers shown in the two labels (\<^verbatim>\<open>scoreEl\<close>, \<^verbatim>\<open>livesEl\<close>), the number of
  game-over alerts it has scheduled, and the frames it has drawn.\<close>

record game =
  score :: int
  lives :: int
  running :: bool
  player :: player
  bones :: "bone list"
  spawnTimer :: nat
  spawnInterval :: real
  keys :: "string \<rightharpoonup> bool"
  mouseX :: "real option"
  useHandControl :: bool
  handXNormalized :: "real option"
  scoreEl :: "int option"
  livesEl :: "int option"
  alerts :: nat
  frames :: "frame list"

datatype error = TypeError

subsection \<open>Helpers\<close>

text \<open>\<^verbatim>\<open>rand(min,max)\<close> is \<^verbatim>\<open>Math.random()*(max-min)+min\<close>; the value of
  \<^verbatim>\<open>Math.random()\<close> is the first argument.\<close>

definition rand :: "real \<Rightarrow> real \<Rightarrow> real \<Rightarrow> real" where
  "rand r lo hi = r * (hi - lo) + lo"

text \<open>\<^verbatim>\<open>keys[k]\<close> as a condition: true only when the entry exists and holds true.\<close>

definition truthy :: "bool option \<Rightarrow> bool" where
  "truthy v = (case v of None \<Rightarrow> False | Some b \<Rightarrow> b)"

text \<open>\<^verbatim>\<open>bones.splice(i,1)\<close>.\<close>

definition splice1 :: "nat \<Rightarrow> 'a list \<Rightarrow> 'a list" where
  "splice1 i xs = take i xs @ drop (Suc i) xs"

text \<open>\<^verbatim>\<open>toLowerCase\<close> on the ASCII letters, which covers the key names the loop reads.\<close>

definition lower_char :: "char \<Rightarrow> char" where
  "lower_char c =
     (let n = (of_char c :: nat) in if 65 \<le> n \<and> n \<le> 90 then char_of (n + 32) else c)"

definition toLowerCase :: "string \<Rightarrow> string" where
  "toLowerCase k = map lower_char k"

subsection \<open>Initial state and reset\<close>

definition snapshot :: "canvas \<Rightarrow> game \<Rightarrow> frame" where
  "snapshot cv s =
     \<lparr> f_bones = bones s, f_player = player s, f_score = score s, f_lives = lives s,
       f_hand = (if useHandControl s
                 then Some ((case handXNormalized s of None \<Rightarrow> 0.5 | Some hx \<Rightarrow> hx) * CANVAS_W cv)
                 else None) \<rparr>"

definition draw :: "canvas \<Rightarrow> game \<Rightarrow> game" where
  "draw cv s = s\<lparr>frames := frames s @ [snapshot cv s]\<rparr>"

text \<open>The state once the script has been loaded: the declarations of lines 22 to 41 and
  the first \<^verbatim>\<open>draw()\<close> of line 257. The labels still show what the page put there.\<close>

definition init_game :: "canvas \<Rightarrow> game" where
  "init_game cv =
     draw cv
       \<lparr> score = 0, lives = 3, running = False,
         player = \<lparr> p_x = CANVAS_W cv / 2, p_y = CANVAS_H cv - 80, p_w = 120, p_h = 80,
                    p_speed = 8 \<rparr>,
         bones = [], spawnTimer = 0, spawnInterval = 80,
         keys = Map.empty, mouseX = None, useHandControl = False, handXNormalized = None,
         scoreEl = None, livesEl = None, alerts = 0, frames = [] \<rparr>"

definition resetGame :: "game \<Rightarrow> game" where
  "resetGame s =
     (let s = s\<lparr>score := 0, lives := 3, bones := [], running := True\<rparr>;
          s = s\<lparr>scoreEl := Some (score s)\<rparr>
      in s\<lparr>livesEl := Some (lives s)\<rparr>)"

subsection \<open>The frame callback\<close>

text \<open>One pass of the body of the loop over the bones (lines 102 to 127) at index \<open>i\<close>.
  Reading \<^verbatim>\<open>bones[i]\<close> past the end gives \<^verbatim>\<open>undefined\<close>, and \<^verbatim>\<open>b.y\<close> then throws.\<close>

definition bone_iter :: "canvas \<Rightarrow> nat \<Rightarrow> game \<Rightarrow> error + game" where
  "bone_iter cv i s =
     (if i < length (bones s) then
        let b = bones s ! i;
            b = b\<lparr>b_y := b_y b + b_vy b\<rparr>;
            b = b\<lparr>b_vy := b_vy b + 0.03\<rparr>;
            s = s\<lparr>bones := (bones s)[i := b]\<rparr>;
            p = player s
        in if (b_y b + b_size b > p_y p \<and> b_y b < p_y p + p_h p) \<and>
              (b_x b > p_x p - 20 \<and> b_x b < p_x p + p_w p + 20)
           then
             let s = s\<lparr>bones := splice1 i (bones s)\<rparr>;
                 s = s\<lparr>score := score s + 10\<rparr>
             in Inr (s\<lparr>scoreEl := Some (score s)\<rparr>)
           else if b_y b > CANVAS_H cv + 50 then
             let s = s\<lparr>bones := splice1 i (bones s)\<rparr>;
                 s = s\<lparr>lives := lives s - 1\<rparr>;
                 s = s\<lparr>livesEl := Some (lives s)\<rparr>
             in if lives s \<le> 0 then Inr (s\<lparr>running := False, alerts := Suc (alerts s)\<rparr>)
                else Inr s
           else Inr s
      else Inl TypeError)"

text \<open>\<^verbatim>\<open>for(let i=bones.length-1; i>=0; i--)\<close>: the first argument is \<open>i + 1\<close>.\<close>

fun bones_loop :: "canvas \<Rightarrow> nat \<Rightarrow> game \<Rightarrow> error + game" where
  "bones_loop cv 0 s = Inr s"
| "bones_loop cv (Suc i) s =
     (case bone_iter cv i s of Inl e \<Rightarrow> Inl e | Inr s' \<Rightarrow> bones_loop cv i s')"

text \<open>\<^verbatim>\<open>update\<close>, lines 66 to 132. The triple holds the three values \<^verbatim>\<open>Math.random()\<close>
  returns when a bone is spawned, in the order of the calls: size, x, vy. The request
  for the next animation frame is not part of the state: a tick can always follow.\<close>

definition update :: "canvas \<Rightarrow> real \<times> real \<times> real \<Rightarrow> game \<Rightarrow> error + game" where
  "update cv rnd s =
     (if \<not> running s then Inr (draw cv s)
      else
        let s = s\<lparr>spawnTimer := spawnTimer s + 1\<rparr>;
            s = (if real (spawnTimer s) \<ge> spawnInterval s then
                   let s = s\<lparr>spawnTimer := 0\<rparr>;
                       sz = rand (fst rnd) 28 48;
                       s = s\<lparr>bones := bones s @
                              [\<lparr> b_x = rand (fst (snd rnd)) 20 (CANVAS_W cv - 20), b_y = - 50,
                                 b_vy = rand (snd (snd rnd)) 2.0 4.0, b_size = sz \<rparr>]\<rparr>
                   in if spawnInterval s > 30 then s\<lparr>spawnInterval := spawnInterval s - 0.5\<rparr>
                      else s
                 else s);
            targetX = p_x (player s);
            targetX = (if truthy (keys s ''arrowleft'') \<or> truthy (keys s ''a'')
                       then targetX - p_speed (player s) * 2 else targetX);
            targetX = (if truthy (keys s ''arrowright'') \<or> truthy (keys s ''d'')
                       then targetX + p_speed (player s) * 2 else targetX);
            targetX = (case mouseX s of None \<Rightarrow> targetX
                       | Some m \<Rightarrow> m - p_w (player s) / 2);
            targetX = (if useHandControl s
                       then (case handXNormalized s of None \<Rightarrow> targetX
                             | Some hx \<Rightarrow> hx * (CANVAS_W cv - p_w (player s)))
                       else targetX);
            s = s\<lparr>player := (player s)\<lparr>p_x := p_x (player s) + (targetX - p_x (player s)) * 0.25\<rparr>\<rparr>;
            s = s\<lparr>player := (player s)\<lparr>p_x := max 0 (min (CANVAS_W cv - p_w (player s)) (p_x (player s)))\<rparr>\<rparr>
        in (case bones_loop cv (length (bones s)) s of
              Inl e \<Rightarrow> Inl e
            | Inr s' \<Rightarrow> Inr (draw cv s')))"

subsection \<open>The sections of the frame callback\<close>

text \<open>The three commented sections of \<^verbatim>\<open>update\<close>, each as a function of its own:
  ``spawn bones'' (lines 70 to 82), ``control player'' with ``smooth'' (lines 85 to 98)
  and ``update bones'' (lines 101 to 128). \<open>update_sections\<close> below proves that
  \<^const>\<open>update\<close> is their composition.\<close>

definition spawn_bones :: "canvas \<Rightarrow> real \<times> real \<times> real \<Rightarrow> game \<Rightarrow> game" where
  "spawn_bones cv rnd s =
     (let s = s\<lparr>spawnTimer := spawnTimer s + 1\<rparr>
      in if real (spawnTimer s) \<ge> spawnInterval s then
           let s = s\<lparr>spawnTimer := 0\<rparr>;
               sz = rand (fst rnd) 28 48;
               s = s\<lparr>bones := bones s @
                      [\<lparr> b_x = rand (fst (snd rnd)) 20 (CANVAS_W cv - 20), b_y = - 50,
                         b_vy = rand (snd (snd rnd)) 2.0 4.0, b_size = sz \<rparr>]\<rparr>
           in if spawnInterval s > 30 then s\<lparr>spawnInterval := spawnInterval s - 0.5\<rparr>
              else s
         else s)"

text \<open>The value of \<^verbatim>\<open>targetX\<close> at line 95, built by the same four assignments.\<close>

definition targetX :: "canvas \<Rightarrow> game \<Rightarrow> real" where
  "targetX cv s =
     (let targetX = p_x (player s);
          targetX = (if truthy (keys s ''arrowleft'') \<or> truthy (keys s ''a'')
                     then targetX - p_speed (player s) * 2 else targetX);
          targetX = (if truthy (keys s ''arrowright'') \<or> truthy (keys s ''d'')
                     then targetX + p_speed (player s) * 2 else targetX);
          targetX = (case mouseX s of None \<Rightarrow> targetX
                     | Some m \<Rightarrow> m - p_w (player s) / 2)
      in if useHandControl s
         then (case handXNormalized s of None \<Rightarrow> targetX
               | Some hx \<Rightarrow> hx * (CANVAS_W cv - p_w (player s)))
         else targetX)"

definition control_player :: "canvas \<Rightarrow> game \<Rightarrow> game" where
  "control_player cv s =
     (let s = s\<lparr>player := (player s)\<lparr>p_x := p_x (player s) + (targetX cv s - p_x (player s)) * 0.25\<rparr>\<rparr>
      in s\<lparr>player := (player s)\<lparr>p_x := max 0 (min (CANVAS_W cv - p_w (player s)) (p_x (player s)))\<rparr>\<rparr>)"

definition update_bones :: "canvas \<Rightarrow> game \<Rightarrow> error + game" where
  "update_bones cv s = bones_loop cv (length (bones s)) s"

text \<open>What the loop does to one bone, read off lines 103 to 118: the bone after
  lines 103 and 104, the catch test of lines 107 and 108, the miss test of line 118.\<close>

definition fall :: "bone \<Rightarrow> bone" where
  "fall b = b\<lparr>b_y := b_y b + b_vy b, b_vy := b_vy b + 0.03\<rparr>"

definition caught :: "player \<Rightarrow> bone \<Rightarrow> bool" where
  "caught p b \<longleftrightarrow>
     (b_y b + b_size b > p_y p \<and> b_y b < p_y p + p_h p) \<and>
     (b_x b > p_x p - 20 \<and> b_x b < p_x p + p_w p + 20)"

definition missed :: "canvas \<Rightarrow> bone \<Rightarrow> bool" where
  "missed cv b \<longleftrightarrow> b_y b > CANVAS_H cv + 50"

text \<open>The bones of a list that stay after the loop, and how many of them are caught
  and how many are missed without being caught.\<close>

definition kept :: "canvas \<Rightarrow> player \<Rightarrow> bone list \<Rightarrow> bone list" where
  "kept cv p bs = filter (\<lambda>b. \<not> caught p b \<and> \<not> missed cv b) (map fall bs)"

definition n_caught :: "player \<Rightarrow> bone list \<Rightarrow> nat" where
  "n_caught p bs = length (filter (caught p) (map fall bs))"

definition n_missed :: "canvas \<Rightarrow> player \<Rightarrow> bone list \<Rightarrow> nat" where
  "n_missed cv p bs = length (filter (\<lambda>b. \<not> caught p b \<and> missed cv b) (map fall bs))"

text \<open>The state the loop leaves when it has gone through the bones \<open>pre\<close> in front of
  the bones \<open>post\<close> it had already gone through; \<open>bones_loop_prefix\<close> below proves that the
  loop computes it. The labels show the counters as last written, and an alert is
  scheduled at every miss that leaves no life.\<close>

definition bones_result :: "canvas \<Rightarrow> game \<Rightarrow> bone list \<Rightarrow> bone list \<Rightarrow> game" where
  "bones_result cv s pre post =
     (let c = int (n_caught (player s) pre); m = int (n_missed cv (player s) pre)
      in s\<lparr>bones := kept cv (player s) pre @ post,
           score := score s + 10 * c,
           lives := lives s - m,
           running := running s \<and> (m = 0 \<or> 0 < lives s - m),
           scoreEl := (if c = 0 then scoreEl s else Some (score s + 10 * c)),
           livesEl := (if m = 0 then livesEl s else Some (lives s - m)),
           alerts := alerts s + nat (min m (m - lives s + 1))\<rparr>)"

subsection \<open>The player update over JavaScript numbers\<close>









subsection \<open>Events\<close>

text \<open>What can happen to the state: a frame callback, a click on the start button, the
  keyboard and mouse listeners, a result of the hand tracker, and a change of the
  hand-control checkbox with its four outcomes (tracking started; the library is not
  loaded; starting the camera threw; unchecked).\<close>

datatype toggle = Hand_started | Hand_no_library | Hand_failed | Hand_unchecked

datatype event =
    Tick "real \<times> real \<times> real"
  | StartClick
  | KeyDown string
  | KeyUp string
  | MouseMove real real
  | HandResults "real list list option"
  | HandToggle toggle

text \<open>\<^verbatim>\<open>hands.onResults\<close>: a hand is the list of the x coordinates of its landmarks.\<close>

definition onResults :: "real list list option \<Rightarrow> game \<Rightarrow> error + game" where
  "onResults res s =
     (case res of
        None \<Rightarrow> Inr (s\<lparr>handXNormalized := None\<rparr>)
      | Some [] \<Rightarrow> Inr (s\<lparr>handXNormalized := None\<rparr>)
      | Some (landmarks # _) \<Rightarrow>
          if 8 < length landmarks then Inr (s\<lparr>handXNormalized := Some (landmarks ! 8)\<rparr>)
          else Inl TypeError)"

definition onToggle :: "toggle \<Rightarrow> game \<Rightarrow> game" where
  "onToggle t s =
     (case t of
        Hand_started \<Rightarrow> s\<lparr>useHandControl := True\<rparr>
      | Hand_no_library \<Rightarrow> s
      | Hand_failed \<Rightarrow> s\<lparr>useHandControl := False\<rparr>
      | Hand_unchecked \<Rightarrow> s\<lparr>useHandControl := False, handXNormalized := None\<rparr>)"

fun handle :: "canvas \<Rightarrow> event \<Rightarrow> game \<Rightarrow> error + game" where
  "handle cv (Tick rnd) s = update cv rnd s"
| "handle cv StartClick s = Inr (resetGame s)"
| "handle cv (KeyDown k) s = Inr (s\<lparr>keys := (keys s)(toLowerCase k \<mapsto> True)\<rparr>)"
| "handle cv (KeyUp k) s = Inr (s\<lparr>keys := (keys s)(toLowerCase k \<mapsto> False)\<rparr>)"
| "handle cv (MouseMove clientX left) s = Inr (s\<lparr>mouseX := Some (clientX - left)\<rparr>)"
| "handle cv (HandResults res) s = onResults res s"
| "handle cv (HandToggle t) s = Inr (onToggle t s)"

text \<open>The states the script can be in: the loaded state, and every state an event that
  did not throw leads to. (\<^verbatim>\<open>onResults\<close> throws before it assigns anything.)\<close>

inductive reachable :: "canvas \<Rightarrow> game \<Rightarrow> bool" for cv :: canvas where
  reach_init: "reachable cv (init_game cv)"
| reach_step: "reachable cv s \<Longrightarrow> handle cv e s = Inr s' \<Longrightarrow> reachable cv s'"

text \<open>A sequence of events, stopping at the first one that throws.\<close>

fun run :: "canvas \<Rightarrow> event list \<Rightarrow> game \<Rightarrow> error + game" where
  "run cv [] s = Inr s"
| "run cv (e # es) s = (case handle cv e s of Inl x \<Rightarrow> Inl x | Inr s' \<Rightarrow> run cv es s')"

text \<open>The catch condition in the words of the specification: the vertical spans overlap
  and the centre lies in the closed interval from \<open>player.x - 20\<close> to
  \<open>player.x + player.width + 20\<close>. Compare \<^const>\<open>caught\<close>, which is the test of the code.\<close>

definition spec_catch_zone :: "player \<Rightarrow> bone \<Rightarrow> bool" where
  "spec_catch_zone p b \<longleftrightarrow>
     (b_y b + b_size b > p_y p \<and> b_y b < p_y p + p_h p) \<and>
     (p_x p - 20 \<le> b_x b \<and> b_x b \<le> p_x p + p_w p + 20)"

text \<open>The tick in the words of the specification's overview: input, then spawning, then
  the bones, then drawing, whatever \<open>running\<close> says. Compare \<^const>\<open>update\<close>.\<close>

definition spec_tick :: "canvas \<Rightarrow> real \<times> real \<times> real \<Rightarrow> game \<Rightarrow> error + game" where
  "spec_tick cv rnd s =
     (case update_bones cv (spawn_bones cv rnd (control_player cv s)) of
        Inl e \<Rightarrow> Inl e
      | Inr s' \<Rightarrow> Inr (draw cv s'))"

subsection \<open>Sample states\<close>

text \<open>A canvas of 800 by 600, and a running game on it whose player stands at
  \<open>x = 340\<close>, with the player's dimensions of line 25 to 31, given bones and lives, and no
  input so far.\<close>

definition demo_canvas :: canvas where
  "demo_canvas = \<lparr> CANVAS_W = 800, CANVAS_H = 600 \<rparr>"

definition demo_game :: "bone list \<Rightarrow> int \<Rightarrow> game" where
  "demo_game bs l =
     \<lparr> score = 0, lives = l, running = True,
       player = \<lparr> p_x = 340, p_y = 520, p_w = 120, p_h = 80, p_speed = 8 \<rparr>,
       bones = bs, spawnTimer = 0, spawnInterval = 80,
       keys = Map.empty, mouseX = None, useHandControl = False, handXNormalized = None,
       scoreEl = None, livesEl = None, alerts = 0, frames = [] \<rparr>"

text \<open>Three bones: one that falls into the player's band right above the player, one
  that falls into the band with its centre exactly 20 to the left of the player, and one
  that falls below the miss line far from the player.\<close>

definition centre_bone :: bone where
  "centre_bone = \<lparr> b_x = 400, b_y = 540, b_vy = 2, b_size = 30 \<rparr>"

definition edge_bone :: bone where
  "edge_bone = \<lparr> b_x = 320, b_y = 540, b_vy = 2, b_size = 30 \<rparr>"

definition lost_bone :: bone where
  "lost_bone = \<lparr> b_x = 100, b_y = 650, b_vy = 3, b_size = 30 \<rparr>"

definition demo_rnd :: "real \<times> real \<times> real" where
  "demo_rnd = (0.5, 0.5, 0.5)"

text \<open>The sample game with the right arrow held; with the pointer at 500 as well; with
  a tracked hand at the right edge of the camera frame as well; and with a tracked hand
  whose coordinate 7.5 lies far outside the unit interval.\<close>

definition keys_game :: game where
  "keys_game = (demo_game [] 3)\<lparr>keys := [''arrowright'' \<mapsto> True]\<rparr>"

definition mouse_game :: game where
  "mouse_game = keys_game\<lparr>mouseX := Some 500\<rparr>"

definition hand_game :: game where
  "hand_game = mouse_game\<lparr>useHandControl := True, handXNormalized := Some 1\<rparr>"



section \<open>The frame callback, section by section\<close>

subsection \<open>The loop over the bones\<close>

lemma update_sections:
  "update cv rnd s =
     (if \<not> running s then Inr (draw cv s)
      else case update_bones cv (control_player cv (spawn_bones cv rnd s)) of
             Inl e \<Rightarrow> Inl e | Inr s' \<Rightarrow> Inr (draw cv s'))"
  unfolding update_def update_bones_def control_player_def targetX_def spawn_bones_def Let_def
  by (rule refl)

lemma bone_iter_at:
  assumes "bones s = pre @ b # post"
  shows "bone_iter cv (length pre) s =
     Inr (if caught (player s) (fall b)
          then s\<lparr>bones := pre @ post, score := score s + 10, scoreEl := Some (score s + 10)\<rparr>
          else if missed cv (fall b)
          then s\<lparr>bones := pre @ post, lives := lives s - 1, livesEl := Some (lives s - 1),
                 running := running s \<and> 0 < lives s - 1,
                 alerts := (if lives s - 1 \<le> 0 then Suc (alerts s) else alerts s)\<rparr>
          else s\<lparr>bones := pre @ fall b # post\<rparr>)"
  using assms
  by (simp add: bone_iter_def Let_def caught_def missed_def fall_def splice1_def)

lemma kept_snoc:
  "kept cv p (bs @ [b]) =
     kept cv p bs @ (if \<not> caught p (fall b) \<and> \<not> missed cv (fall b) then [fall b] else [])"
  by (simp add: kept_def)

lemma n_caught_snoc:
  "n_caught p (bs @ [b]) = n_caught p bs + (if caught p (fall b) then 1 else 0)"
  by (simp add: n_caught_def)

lemma n_missed_snoc:
  "n_missed cv p (bs @ [b]) =
     n_missed cv p bs + (if \<not> caught p (fall b) \<and> missed cv (fall b) then 1 else 0)"
  by (simp add: n_missed_def)

lemma bones_result_Nil: "bones s = post \<Longrightarrow> bones_result cv s [] post = s"
  by (simp add: bones_result_def kept_def n_caught_def n_missed_def)

lemma bones_result_caught:
  "caught (player s) (fall b) \<Longrightarrow>
   bones_result cv
     (s\<lparr>bones := pre @ post, score := score s + 10, scoreEl := Some (score s + 10)\<rparr>) pre post =
   bones_result cv s (pre @ [b]) post"
  by (simp add: bones_result_def kept_snoc n_caught_snoc n_missed_snoc Let_def)

lemma bones_result_kept:
  "\<not> caught (player s) (fall b) \<Longrightarrow> \<not> missed cv (fall b) \<Longrightarrow>
   bones_result cv (s\<lparr>bones := pre @ fall b # post\<rparr>) pre (fall b # post) =
   bones_result cv s (pre @ [b]) post"
  by (simp add: bones_result_def kept_snoc n_caught_snoc n_missed_snoc Let_def)

lemma bones_result_missed:
  assumes "\<not> caught (player s) (fall b)" "missed cv (fall b)"
  shows "bones_result cv
     (s\<lparr>bones := pre @ post, lives := lives s - 1, livesEl := Some (lives s - 1),
        running := running s \<and> 0 < lives s - 1,
        alerts := (if lives s - 1 \<le> 0 then Suc (alerts s) else alerts s)\<rparr>) pre post =
   bones_result cv s (pre @ [b]) post"
    (is "?l = ?r")
proof (rule game.equality)
  show "alerts ?l = alerts ?r"
    using assms by (simp add: bones_result_def n_missed_snoc Let_def) linarith
  show "running ?l = running ?r"
    using assms by (simp add: bones_result_def n_missed_snoc Let_def) linarith
qed (use assms in \<open>simp_all add: bones_result_def kept_snoc n_caught_snoc n_missed_snoc Let_def\<close>)

lemma bones_loop_snoc:
  "bone_iter cv (length pre) s = Inr s1 \<Longrightarrow>
   bones_loop cv (length (pre @ [b])) s = bones_loop cv (length pre) s1"
  by simp

lemma bones_loop_prefix:
  "bones s = pre @ post \<Longrightarrow> bones_loop cv (length pre) s = Inr (bones_result cv s pre post)"
proof (induction pre arbitrary: s post rule: rev_induct)
  case Nil
  then show ?case by (simp add: bones_result_Nil)
next
  case (snoc b pre)
  from snoc.prems have bs: "bones s = pre @ b # post" by simp
  note it = bone_iter_at [OF bs, of cv]
  consider (c) "caught (player s) (fall b)"
    | (m) "\<not> caught (player s) (fall b)" "missed cv (fall b)"
    | (k) "\<not> caught (player s) (fall b)" "\<not> missed cv (fall b)" by blast
  then show ?case
  proof cases
    case c
    let ?s1 = "s\<lparr>bones := pre @ post, score := score s + 10, scoreEl := Some (score s + 10)\<rparr>"
    from it c have "bone_iter cv (length pre) s = Inr ?s1" by (simp only: if_True)
    then have "bones_loop cv (length (pre @ [b])) s = bones_loop cv (length pre) ?s1"
      by (rule bones_loop_snoc)
    also have "\<dots> = Inr (bones_result cv ?s1 pre post)"
      by (rule snoc.IH) simp
    also have "bones_result cv ?s1 pre post = bones_result cv s (pre @ [b]) post"
      using c by (rule bones_result_caught)
    finally show ?thesis .
  next
    case m
    let ?s1 = "s\<lparr>bones := pre @ post, lives := lives s - 1, livesEl := Some (lives s - 1),
        running := running s \<and> 0 < lives s - 1,
        alerts := (if lives s - 1 \<le> 0 then Suc (alerts s) else alerts s)\<rparr>"
    from it m have "bone_iter cv (length pre) s = Inr ?s1" by (simp only: if_True if_False)
    then have "bones_loop cv (length (pre @ [b])) s = bones_loop cv (length pre) ?s1"
      by (rule bones_loop_snoc)
    also have "\<dots> = Inr (bones_result cv ?s1 pre post)"
      by (rule snoc.IH) simp
    also have "bones_result cv ?s1 pre post = bones_result cv s (pre @ [b]) post"
      using m by (rule bones_result_missed)
    finally show ?thesis .
  next
    case k
    let ?s1 = "s\<lparr>bones := pre @ fall b # post\<rparr>"
    from it k have "bone_iter cv (length pre) s = Inr ?s1" by (simp only: if_False)
    then have "bones_loop cv (length (pre @ [b])) s = bones_loop cv (length pre) ?s1"
      by (rule bones_loop_snoc)
    also have "\<dots> = Inr (bones_result cv ?s1 pre (fall b # post))"
      by (rule snoc.IH) simp
    also have "bones_result cv ?s1 pre (fall b # post) = bones_result cv s (pre @ [b]) post"
      using k by (rule bones_result_kept)
    finally show ?thesis .
  qed
qed

lemma update_bones_result: "update_bones cv s = Inr (bones_result cv s (bones s) [])"
  using bones_loop_prefix [of s "bones s" "[]" cv] by (simp add: update_bones_def)

subsection \<open>Spawning, steering, and the whole tick\<close>

lemma spawn_bones_eq:
  "spawn_bones cv rnd s =
     (if spawnInterval s \<le> real (spawnTimer s + 1) then
        s\<lparr>spawnTimer := 0,
          bones := bones s @
            [\<lparr> b_x = rand (fst (snd rnd)) 20 (CANVAS_W cv - 20), b_y = - 50,
               b_vy = rand (snd (snd rnd)) 2 4, b_size = rand (fst rnd) 28 48 \<rparr>],
          spawnInterval := (if 30 < spawnInterval s then spawnInterval s - 1 / 2
                            else spawnInterval s)\<rparr>
      else s\<lparr>spawnTimer := spawnTimer s + 1\<rparr>)"
  by (simp add: spawn_bones_def Let_def)

lemma spawn_bones_fields:
  "player (spawn_bones cv rnd s) = player s"
  "score (spawn_bones cv rnd s) = score s"
  "lives (spawn_bones cv rnd s) = lives s"
  "running (spawn_bones cv rnd s) = running s"
  "keys (spawn_bones cv rnd s) = keys s"
  "mouseX (spawn_bones cv rnd s) = mouseX s"
  "useHandControl (spawn_bones cv rnd s) = useHandControl s"
  "handXNormalized (spawn_bones cv rnd s) = handXNormalized s"
  "frames (spawn_bones cv rnd s) = frames s"
  by (simp_all add: spawn_bones_eq)

lemma targetX_spawn: "targetX cv (spawn_bones cv rnd s) = targetX cv s"
  unfolding targetX_def spawn_bones_fields by (rule refl)

lemma control_player_eq:
  "control_player cv s =
     s\<lparr>player := (player s)
         \<lparr>p_x := max 0 (min (CANVAS_W cv - p_w (player s))
                   (p_x (player s) + (targetX cv s - p_x (player s)) * 0.25))\<rparr>\<rparr>"
  by (simp add: control_player_def Let_def)

text \<open>The state in which the loop over the bones starts on a tick of a running game.\<close>

lemma player_before_loop:
  "player (control_player cv (spawn_bones cv rnd s)) =
     (player s)\<lparr>p_x := max 0 (min (CANVAS_W cv - p_w (player s))
                   (p_x (player s) + (targetX cv s - p_x (player s)) * 0.25))\<rparr>"
  by (simp add: control_player_eq targetX_spawn spawn_bones_fields)

lemma before_loop_fields:
  "score (control_player cv (spawn_bones cv rnd s)) = score s"
  "lives (control_player cv (spawn_bones cv rnd s)) = lives s"
  "running (control_player cv (spawn_bones cv rnd s)) = running s"
  "keys (control_player cv (spawn_bones cv rnd s)) = keys s"
  "mouseX (control_player cv (spawn_bones cv rnd s)) = mouseX s"
  "useHandControl (control_player cv (spawn_bones cv rnd s)) = useHandControl s"
  "handXNormalized (control_player cv (spawn_bones cv rnd s)) = handXNormalized s"
  "frames (control_player cv (spawn_bones cv rnd s)) = frames s"
  "bones (control_player cv (spawn_bones cv rnd s)) = bones (spawn_bones cv rnd s)"
  "spawnTimer (control_player cv (spawn_bones cv rnd s)) = spawnTimer (spawn_bones cv rnd s)"
  "spawnInterval (control_player cv (spawn_bones cv rnd s)) = spawnInterval (spawn_bones cv rnd s)"
  by (simp_all add: control_player_eq spawn_bones_fields)

lemma bones_result_fields:
  "bones (bones_result cv s pre post) = kept cv (player s) pre @ post"
  "score (bones_result cv s pre post) = score s + 10 * int (n_caught (player s) pre)"
  "lives (bones_result cv s pre post) = lives s - int (n_missed cv (player s) pre)"
  "running (bones_result cv s pre post) \<longleftrightarrow>
     running s \<and> (n_missed cv (player s) pre = 0 \<or> int (n_missed cv (player s) pre) < lives s)"
  "player (bones_result cv s pre post) = player s"
  "spawnTimer (bones_result cv s pre post) = spawnTimer s"
  "spawnInterval (bones_result cv s pre post) = spawnInterval s"
  "keys (bones_result cv s pre post) = keys s"
  "mouseX (bones_result cv s pre post) = mouseX s"
  "useHandControl (bones_result cv s pre post) = useHandControl s"
  "handXNormalized (bones_result cv s pre post) = handXNormalized s"
  "frames (bones_result cv s pre post) = frames s"
  by (simp_all add: bones_result_def Let_def)

lemma draw_fields:
  "bones (draw cv s) = bones s" "score (draw cv s) = score s" "lives (draw cv s) = lives s"
  "running (draw cv s) = running s" "player (draw cv s) = player s"
  "spawnTimer (draw cv s) = spawnTimer s" "spawnInterval (draw cv s) = spawnInterval s"
  "keys (draw cv s) = keys s" "mouseX (draw cv s) = mouseX s"
  "useHandControl (draw cv s) = useHandControl s"
  "handXNormalized (draw cv s) = handXNormalized s"
  "frames (draw cv s) = frames s @ [snapshot cv s]"
  by (simp_all add: draw_def)

lemma update_running:
  "running s \<Longrightarrow>
   update cv rnd s =
     Inr (draw cv (bones_result cv (control_player cv (spawn_bones cv rnd s))
            (bones (spawn_bones cv rnd s)) []))"
  by (simp add: update_sections update_bones_result before_loop_fields)

lemma update_stopped: "\<not> running s \<Longrightarrow> update cv rnd s = Inr (draw cv s)"
  by (simp add: update_def)

lemma update_total: "\<exists>s'. update cv rnd s = Inr s'"
  by (cases "running s") (simp_all add: update_running update_stopped)

subsection \<open>A tick of a sample state\<close>

lemma demo_before_loop:
  "control_player demo_canvas (spawn_bones demo_canvas demo_rnd (demo_game bs l)) =
     (demo_game bs l)\<lparr>spawnTimer := 1\<rparr>"
proof -
  have sp: "spawn_bones demo_canvas demo_rnd (demo_game bs l) = (demo_game bs l)\<lparr>spawnTimer := 1\<rparr>"
    by (simp add: spawn_bones_eq demo_game_def)
  have tx: "targetX demo_canvas ((demo_game bs l)\<lparr>spawnTimer := 1\<rparr>) = 340"
    by (simp add: targetX_def demo_game_def truthy_def)
  show ?thesis
    unfolding sp control_player_eq tx by (simp add: demo_game_def demo_canvas_def)
qed

lemma demo_tick:
  "update demo_canvas demo_rnd (demo_game bs l) =
     Inr (draw demo_canvas
       (bones_result demo_canvas ((demo_game bs l)\<lparr>spawnTimer := 1\<rparr>) bs []))"
proof -
  have r: "running (demo_game bs l)" by (simp add: demo_game_def)
  have sp: "bones (spawn_bones demo_canvas demo_rnd (demo_game bs l)) = bs"
    by (simp add: spawn_bones_eq demo_game_def)
  show ?thesis
    unfolding update_running [OF r] demo_before_loop sp by (rule refl)
qed

section \<open>Catching and missing\<close>

text \<open>
  C1, as amended. On a tick of a running game the loop starts from the bones the spawner
  leaves (a bone spawned on this tick included) and from the player as steered on this
  tick. Every bone is first moved by \<^const>\<open>fall\<close>. A bone is caught when its vertical span
  \<open>(y, y + size)\<close> overlaps the player's span \<open>(player.y, player.y + player.h)\<close> and
  its centre lies strictly between \<open>player.x - 20\<close> and \<open>player.x + player.w + 20\<close>.
  Every caught bone is removed on that tick, the score grows by exactly 10 for each of
  them, and only the bones that are not caught are looked at for a miss, so a caught bone
  costs no life. The tolerance interval is open: the code compares with \<open><\<close> and \<open>>\<close>.
\<close>

theorem catch_on_tick:
  assumes "running s"
  shows "\<exists>s'. update cv rnd s = Inr s' \<and>
     player s' = (player s)\<lparr>p_x := max 0 (min (CANVAS_W cv - p_w (player s))
                   (p_x (player s) + (targetX cv s - p_x (player s)) * 0.25))\<rparr> \<and>
     bones s' = filter (\<lambda>b. \<not> caught (player s') b \<and> \<not> missed cv b)
                  (map fall (bones (spawn_bones cv rnd s))) \<and>
     (\<forall>b \<in> set (map fall (bones (spawn_bones cv rnd s))).
        caught (player s') b \<longrightarrow> b \<notin> set (bones s')) \<and>
     score s' = score s +
       10 * int (length (filter (caught (player s')) (map fall (bones (spawn_bones cv rnd s))))) \<and>
     lives s' = lives s -
       int (length (filter (\<lambda>b. \<not> caught (player s') b \<and> missed cv b)
              (map fall (bones (spawn_bones cv rnd s))))) \<and>
     (caught p b \<longleftrightarrow>
        (b_y b + b_size b > p_y p \<and> b_y b < p_y p + p_h p) \<and>
        (p_x p - 20 < b_x b \<and> b_x b < p_x p + p_w p + 20))"
  using assms
  by (simp add: update_running draw_fields bones_result_fields before_loop_fields
      player_before_loop kept_def n_caught_def n_missed_def)
    (simp add: caught_def)

text \<open>The theorem at a game with one bone right above the player: the bone is caught
  and gone, the score is 10, no life is lost.\<close>

theorem catch_on_tick_witness:
  "running (demo_game [centre_bone] 3) \<and>
   (case update demo_canvas demo_rnd (demo_game [centre_bone] 3) of
      Inl e \<Rightarrow> False
    | Inr s' \<Rightarrow> caught (player s') (fall centre_bone) \<and>
        bones s' = [] \<and> score s' = 10 \<and> lives s' = 3)"
proof -
  have r: "running (demo_game [centre_bone] 3)" by (simp add: demo_game_def)
  have sp: "bones (spawn_bones demo_canvas demo_rnd (demo_game [centre_bone] 3)) = [centre_bone]"
    by (simp add: spawn_bones_eq demo_game_def)
  have tx: "targetX demo_canvas (demo_game [centre_bone] 3) = 340"
    by (simp add: targetX_def demo_game_def truthy_def)
  show ?thesis
    using catch_on_tick [OF r, of demo_canvas demo_rnd "player (demo_game [centre_bone] 3)"
        "fall centre_bone"] unfolding sp tx
    apply -
    apply (elim exE conjE)
    apply (simp add: demo_game_def demo_canvas_def caught_def missed_def fall_def centre_bone_def)
    done
qed


text \<open>
  C1 as stated, with the closed interval, fails on the code: a bone that falls into the
  player's band with its centre exactly at \<open>player.x - 20\<close> lies in the closed interval,
  yet it stays in the collection and the score does not change.
\<close>

lemma demo_result_edge:
  "bones_result demo_canvas ((demo_game [edge_bone] 3)\<lparr>spawnTimer := 1\<rparr>) [edge_bone] [] =
     (demo_game [fall edge_bone] 3)\<lparr>spawnTimer := 1\<rparr>"
  by (simp add: bones_result_def kept_def n_caught_def n_missed_def caught_def missed_def
      fall_def edge_bone_def demo_game_def demo_canvas_def)

theorem catch_closed_interval_counterexample:
  "update demo_canvas demo_rnd (demo_game [edge_bone] 3) =
     Inr (draw demo_canvas ((demo_game [fall edge_bone] 3)\<lparr>spawnTimer := 1\<rparr>)) \<and>
   spec_catch_zone (player (demo_game [fall edge_bone] 3)) (fall edge_bone) \<and>
   b_x (fall edge_bone) = p_x (player (demo_game [fall edge_bone] 3)) - 20 \<and>
   bones (draw demo_canvas ((demo_game [fall edge_bone] 3)\<lparr>spawnTimer := 1\<rparr>)) = [fall edge_bone] \<and>
   score (draw demo_canvas ((demo_game [fall edge_bone] 3)\<lparr>spawnTimer := 1\<rparr>)) =
     score (demo_game [edge_bone] 3)"
proof (intro conjI)
  show "update demo_canvas demo_rnd (demo_game [edge_bone] 3) =
     Inr (draw demo_canvas ((demo_game [fall edge_bone] 3)\<lparr>spawnTimer := 1\<rparr>))"
    unfolding demo_tick demo_result_edge by (rule refl)
  show "spec_catch_zone (player (demo_game [fall edge_bone] 3)) (fall edge_bone)"
    by (simp add: spec_catch_zone_def fall_def edge_bone_def demo_game_def)
  show "b_x (fall edge_bone) = p_x (player (demo_game [fall edge_bone] 3)) - 20"
    by (simp add: fall_def edge_bone_def demo_game_def)
  show "bones (draw demo_canvas ((demo_game [fall edge_bone] 3)\<lparr>spawnTimer := 1\<rparr>)) =
      [fall edge_bone]"
    by (simp add: draw_fields demo_game_def)
  show "score (draw demo_canvas ((demo_game [fall edge_bone] 3)\<lparr>spawnTimer := 1\<rparr>)) =
      score (demo_game [edge_bone] 3)"
    by (simp add: draw_fields demo_game_def)
qed

text \<open>
  C2. On a tick of a running game, every bone whose \<open>y\<close>, after this tick's move, exceeds
  \<open>CANVAS_H + 50\<close> and that is not caught on this tick is removed, and the lives drop by
  exactly one for each such bone.
\<close>

theorem miss_on_tick:
  assumes "running s"
  shows "\<exists>s'. update cv rnd s = Inr s' \<and>
     player s' = (player s)\<lparr>p_x := max 0 (min (CANVAS_W cv - p_w (player s))
                   (p_x (player s) + (targetX cv s - p_x (player s)) * 0.25))\<rparr> \<and>
     (\<forall>b \<in> set (map fall (bones (spawn_bones cv rnd s))).
        b_y b > CANVAS_H cv + 50 \<and> \<not> caught (player s') b \<longrightarrow> b \<notin> set (bones s')) \<and>
     lives s' = lives s -
       int (length (filter (\<lambda>b. b_y b > CANVAS_H cv + 50 \<and> \<not> caught (player s') b)
              (map fall (bones (spawn_bones cv rnd s)))))"
proof -
  have "(\<lambda>b. \<not> caught p b \<and> missed cv b) = (\<lambda>b. b_y b > CANVAS_H cv + 50 \<and> \<not> caught p b)" for p
    by (auto simp: missed_def)
  with assms show ?thesis
    by (simp add: update_running draw_fields bones_result_fields before_loop_fields
        player_before_loop kept_def n_missed_def)
      (simp add: missed_def)
qed

text \<open>The theorem at a game with one bone below the miss line: the bone is gone and
  two of three lives are left.\<close>

theorem miss_on_tick_witness:
  "running (demo_game [lost_bone] 3) \<and>
   (case update demo_canvas demo_rnd (demo_game [lost_bone] 3) of
      Inl e \<Rightarrow> False
    | Inr s' \<Rightarrow> b_y (fall lost_bone) > CANVAS_H demo_canvas + 50 \<and>
        fall lost_bone \<notin> set (bones s') \<and> lives s' = 2)"
proof -
  have r: "running (demo_game [lost_bone] 3)" by (simp add: demo_game_def)
  have sp: "bones (spawn_bones demo_canvas demo_rnd (demo_game [lost_bone] 3)) = [lost_bone]"
    by (simp add: spawn_bones_eq demo_game_def)
  have tx: "targetX demo_canvas (demo_game [lost_bone] 3) = 340"
    by (simp add: targetX_def demo_game_def truthy_def)
  show ?thesis
    using miss_on_tick [OF r, of demo_canvas demo_rnd] unfolding sp tx
    apply -
    apply (elim exE conjE)
    apply (simp add: demo_game_def demo_canvas_def caught_def fall_def lost_bone_def)
    done
qed

section \<open>Game over, reset and the spawn interval\<close>

lemma update_lives_running:
  assumes "update cv rnd s = Inr s'" "lives s' \<noteq> lives s" "lives s' \<le> 0"
  shows "\<not> running s'"
proof (cases "running s")
  case False
  with assms show ?thesis by (auto simp: update_stopped draw_fields)
next
  case True
  let ?s2 = "control_player cv (spawn_bones cv rnd s)"
  let ?n = "n_missed cv (player ?s2) (bones (spawn_bones cv rnd s))"
  from True assms(1) have s': "s' = draw cv (bones_result cv ?s2 (bones (spawn_bones cv rnd s)) [])"
    by (simp add: update_running)
  have l: "lives s' = lives s - int ?n"
    by (simp add: s' draw_fields bones_result_fields before_loop_fields)
  have r: "running s' \<longleftrightarrow> running s \<and> (?n = 0 \<or> int ?n < lives s)"
    by (simp add: s' draw_fields bones_result_fields before_loop_fields)
  from l assms(2,3) have "?n \<noteq> 0" "\<not> int ?n < lives s" by auto
  with r show ?thesis by simp
qed

lemma handle_stopped:
  assumes "\<not> running s" "handle cv e s = Inr s'" "running s'"
  shows "e = StartClick"
proof (cases e)
  case (Tick rnd)
  with assms show ?thesis by (auto simp: update_stopped draw_fields)
next
  case (HandResults res)
  with assms show ?thesis
    by (auto simp: onResults_def split: option.splits list.splits if_splits)
next
  case (HandToggle t)
  with assms show ?thesis by (cases t) (auto simp: onToggle_def)
qed (use assms in auto)

lemma resetGame_eq:
  "resetGame s = s\<lparr>score := 0, lives := 3, bones := [], running := True,
                    scoreEl := Some 0, livesEl := Some 3\<rparr>"
  by (simp add: resetGame_def Let_def)

text \<open>
  C3. A tick that changes the lives and leaves none (in particular one on which the lives
  reach exactly 0) ends with \<open>running\<close> false. While \<open>running\<close> is false a tick does
  nothing but draw one more frame of the unchanged state: no spawning, no physics. No
  event other than the click on the start button makes \<open>running\<close> true again, and that
  click does.
\<close>

theorem game_over_one_way:
  "(update cv rnd s = Inr s' \<longrightarrow> lives s' \<noteq> lives s \<longrightarrow> lives s' \<le> 0 \<longrightarrow> \<not> running s') \<and>
   (\<not> running s \<longrightarrow> update cv rnd s = Inr (s\<lparr>frames := frames s @ [snapshot cv s]\<rparr>)) \<and>
   (\<not> running s \<longrightarrow> handle cv e s = Inr s'' \<longrightarrow> running s'' \<longrightarrow> e = StartClick) \<and>
   handle cv StartClick s = Inr (resetGame s) \<and> running (resetGame s)"
  using update_lives_running [of cv rnd s s'] handle_stopped [of s cv e s'']
  by (auto simp: update_stopped draw_def resetGame_eq)

text \<open>The theorem at a game with one life and one bone below the miss line, and at the
  loaded state, which is not running.\<close>

lemma demo_result_lost:
  "bones_result demo_canvas ((demo_game [lost_bone] 1)\<lparr>spawnTimer := 1\<rparr>) [lost_bone] [] =
     (demo_game [] 0)\<lparr>spawnTimer := 1, livesEl := Some 0, running := False, alerts := 1\<rparr>"
  by (simp add: bones_result_def kept_def n_caught_def n_missed_def caught_def missed_def
      fall_def lost_bone_def demo_game_def demo_canvas_def)

theorem game_over_one_way_witness:
  "update demo_canvas demo_rnd (demo_game [lost_bone] 1) =
     Inr (draw demo_canvas
       ((demo_game [] 0)\<lparr>spawnTimer := 1, livesEl := Some 0, running := False, alerts := 1\<rparr>)) \<and>
   lives (demo_game [lost_bone] 1) = 1 \<and>
   lives (draw demo_canvas
       ((demo_game [] 0)\<lparr>spawnTimer := 1, livesEl := Some 0, running := False, alerts := 1\<rparr>)) = 0 \<and>
   \<not> running (draw demo_canvas
       ((demo_game [] 0)\<lparr>spawnTimer := 1, livesEl := Some 0, running := False, alerts := 1\<rparr>)) \<and>
   \<not> running (init_game demo_canvas) \<and>
   update demo_canvas demo_rnd (init_game demo_canvas) =
     Inr ((init_game demo_canvas)
          \<lparr>frames := frames (init_game demo_canvas) @ [snapshot demo_canvas (init_game demo_canvas)]\<rparr>) \<and>
   handle demo_canvas StartClick (init_game demo_canvas) = Inr (resetGame (init_game demo_canvas)) \<and>
   running (resetGame (init_game demo_canvas))"
proof -
  let ?after = "draw demo_canvas
       ((demo_game [] 0)\<lparr>spawnTimer := 1, livesEl := Some 0, running := False, alerts := 1\<rparr>)"
  have u: "update demo_canvas demo_rnd (demo_game [lost_bone] 1) = Inr ?after"
    unfolding demo_tick demo_result_lost by (rule refl)
  have l: "lives ?after \<noteq> lives (demo_game [lost_bone] 1)" "lives ?after \<le> 0"
    "lives (demo_game [lost_bone] 1) = 1" "lives ?after = 0"
    by (simp_all add: draw_fields demo_game_def)
  have i: "\<not> running (init_game demo_canvas)"
    by (simp add: init_game_def draw_fields)
  note t1 = game_over_one_way [of demo_canvas demo_rnd "demo_game [lost_bone] 1" ?after]
  note t2 = game_over_one_way [of demo_canvas demo_rnd "init_game demo_canvas"]
  from t1 u l have "\<not> running ?after" by blast
  moreover from t2 i have "update demo_canvas demo_rnd (init_game demo_canvas) =
     Inr ((init_game demo_canvas)
          \<lparr>frames := frames (init_game demo_canvas) @ [snapshot demo_canvas (init_game demo_canvas)]\<rparr>)"
    by blast
  moreover from t2 have "handle demo_canvas StartClick (init_game demo_canvas) =
      Inr (resetGame (init_game demo_canvas))" "running (resetGame (init_game demo_canvas))"
    by blast+
  ultimately show ?thesis using u l i by blast
qed

text \<open>
  C4. From any state, \<^verbatim>\<open>resetGame\<close> (which is what the start button calls) yields score 0,
  lives 3, no bones and \<open>running\<close> true, and leaves \<open>spawnTimer\<close> and \<open>spawnInterval\<close> as
  they were; resetting twice is resetting once.
\<close>

theorem resetGame_state:
  "score (resetGame s) = 0 \<and> lives (resetGame s) = 3 \<and> bones (resetGame s) = [] \<and>
   running (resetGame s) \<and>
   spawnTimer (resetGame s) = spawnTimer s \<and> spawnInterval (resetGame s) = spawnInterval s \<and>
   handle cv StartClick s = Inr (resetGame s) \<and>
   resetGame (resetGame s) = resetGame s"
  by (simp add: resetGame_eq)

lemma update_spawnInterval:
  "update cv rnd s = Inr s' \<Longrightarrow>
   spawnInterval s' = (if running s then spawnInterval (spawn_bones cv rnd s) else spawnInterval s)"
  by (cases "running s")
    (auto simp: update_running update_stopped draw_fields bones_result_fields before_loop_fields)

lemma spawn_bones_interval:
  "spawnInterval (spawn_bones cv rnd s) =
     (if spawnInterval s \<le> real (spawnTimer s + 1) \<and> 30 < spawnInterval s
      then spawnInterval s - 1 / 2 else spawnInterval s)"
  by (simp add: spawn_bones_eq)

lemma handle_spawnInterval:
  assumes "handle cv e s = Inr s'"
  shows "spawnInterval s' = spawnInterval s \<or>
         (30 < spawnInterval s \<and> spawnInterval s' = spawnInterval s - 1 / 2)"
proof (cases e)
  case (Tick rnd)
  with assms show ?thesis
    by (auto simp: spawn_bones_interval dest!: update_spawnInterval split: if_splits)
next
  case (HandResults res)
  with assms show ?thesis
    by (auto simp: onResults_def split: option.splits list.splits if_splits)
next
  case (HandToggle t)
  with assms show ?thesis by (cases t) (auto simp: onToggle_def)
qed (use assms in \<open>auto simp: resetGame_eq\<close>)

lemma reachable_half_steps:
  "reachable cv s \<Longrightarrow> \<exists>k::nat. spawnInterval s = 30 + real k / 2"
proof (induction rule: reachable.induct)
  case reach_init
  have "spawnInterval (init_game cv) = 30 + real 100 / 2"
    by (simp add: init_game_def draw_fields)
  then show ?case by blast
next
  case (reach_step s e s')
  then obtain k :: nat where k: "spawnInterval s = 30 + real k / 2" by blast
  from handle_spawnInterval [OF reach_step.hyps(2)] show ?case
  proof
    assume "spawnInterval s' = spawnInterval s"
    with k show ?thesis by auto
  next
    assume a: "30 < spawnInterval s \<and> spawnInterval s' = spawnInterval s - 1 / 2"
    with k have "0 < k" by (cases k) auto
    then have "real (k - 1) = real k - 1" by (simp add: of_nat_diff)
    with a k have "spawnInterval s' = 30 + real (k - 1) / 2" by (simp add: field_simps)
    then show ?thesis by blast
  qed
qed

text \<open>
  C5. In every reachable state the spawn interval is at least 30. No event raises it:
  an event either leaves it as it is or, when it exceeds 30, lowers it by 0.5, and the
  state after the event again has an interval of at least 30. The spawner lowers it
  exactly when it spawns and the interval exceeds 30.
\<close>

theorem spawn_interval_floor:
  assumes "reachable cv s"
  shows "30 \<le> spawnInterval s \<and>
    (\<forall>e s'. handle cv e s = Inr s' \<longrightarrow>
       spawnInterval s' \<le> spawnInterval s \<and> 30 \<le> spawnInterval s' \<and>
       (spawnInterval s' = spawnInterval s \<or>
        (30 < spawnInterval s \<and> spawnInterval s' = spawnInterval s - 1 / 2))) \<and>
    spawnInterval (spawn_bones cv rnd s) =
      (if spawnInterval s \<le> real (spawnTimer s + 1) \<and> 30 < spawnInterval s
       then spawnInterval s - 1 / 2 else spawnInterval s)"
proof (intro conjI allI impI)
  from reachable_half_steps [OF assms] show "30 \<le> spawnInterval s" by auto
next
  fix e s' assume h: "handle cv e s = Inr s'"
  from handle_spawnInterval [OF h]
  show "spawnInterval s' \<le> spawnInterval s" by auto
  from assms h have "reachable cv s'" by (rule reach_step)
  from reachable_half_steps [OF this] show "30 \<le> spawnInterval s'" by auto
  from handle_spawnInterval [OF h]
  show "spawnInterval s' = spawnInterval s \<or>
        (30 < spawnInterval s \<and> spawnInterval s' = spawnInterval s - 1 / 2)" .
next
  show "spawnInterval (spawn_bones cv rnd s) =
      (if spawnInterval s \<le> real (spawnTimer s + 1) \<and> 30 < spawnInterval s
       then spawnInterval s - 1 / 2 else spawnInterval s)"
    by (rule spawn_bones_interval)
qed


text \<open>The theorem at the state reached by the click on the start button and 79 ticks:
  the 80th tick spawns and lowers the interval from 80 to 79.5.\<close>

lemma run_reachable: "reachable cv s \<Longrightarrow> run cv es s = Inr s' \<Longrightarrow> reachable cv s'"
proof (induction es arbitrary: s)
  case Nil
  then show ?case by simp
next
  case (Cons e es)
  then show ?case by (auto split: sum.splits intro: reach_step)
qed

lemma idle_ticks:
  "running s \<Longrightarrow> bones s = [] \<Longrightarrow> spawnInterval s = 80 \<Longrightarrow> spawnTimer s + n < 80 \<Longrightarrow>
   \<exists>s'. run cv (replicate n (Tick rnd)) s = Inr s' \<and> running s' \<and> bones s' = [] \<and>
        spawnInterval s' = 80 \<and> spawnTimer s' = spawnTimer s + n"
proof (induction n arbitrary: s)
  case 0
  then show ?case by simp
next
  case (Suc n)
  let ?s1 = "draw cv (bones_result cv (control_player cv (spawn_bones cv rnd s))
            (bones (spawn_bones cv rnd s)) [])"
  from Suc.prems have sp: "spawn_bones cv rnd s = s\<lparr>spawnTimer := spawnTimer s + 1\<rparr>"
    by (simp add: spawn_bones_eq)
  from Suc.prems have u: "update cv rnd s = Inr ?s1" by (simp add: update_running)
  from Suc.prems have b: "bones (spawn_bones cv rnd s) = []"
    "spawnInterval (spawn_bones cv rnd s) = 80"
    "spawnTimer (spawn_bones cv rnd s) = spawnTimer s + 1"
    by (simp_all add: sp)
  have f: "running ?s1" "bones ?s1 = []" "spawnInterval ?s1 = 80" "spawnTimer ?s1 = spawnTimer s + 1"
    using Suc.prems(1)
    by (simp_all add: draw_fields bones_result_fields before_loop_fields b kept_def n_missed_def)
  with Suc.prems have "spawnTimer ?s1 + n < 80" by simp
  from Suc.IH [OF f(1) f(2) f(3) this] obtain s' where
    "run cv (replicate n (Tick rnd)) ?s1 = Inr s'" "running s'" "bones s' = []"
    "spawnInterval s' = 80" "spawnTimer s' = spawnTimer ?s1 + n" by blast
  with u f(4) show ?case by simp
qed

theorem spawn_interval_floor_witness:
  "(case run demo_canvas (StartClick # replicate 79 (Tick demo_rnd)) (init_game demo_canvas) of
      Inl e \<Rightarrow> False
    | Inr s \<Rightarrow> reachable demo_canvas s \<and> spawnInterval s = 80 \<and>
        (case handle demo_canvas (Tick demo_rnd) s of
           Inl e \<Rightarrow> False
         | Inr s' \<Rightarrow> spawnInterval s' = 79.5 \<and> 30 \<le> spawnInterval s'))"
proof -
  let ?s0 = "resetGame (init_game demo_canvas)"
  have "running ?s0" "bones ?s0 = []" "spawnInterval ?s0 = 80" "spawnTimer ?s0 + 79 < 80"
    by (simp_all add: resetGame_eq init_game_def draw_fields)
  from idle_ticks [OF this, of demo_canvas demo_rnd] obtain s where
    r: "run demo_canvas (replicate 79 (Tick demo_rnd)) ?s0 = Inr s" and
    s: "running s" "spawnInterval s = 80" "spawnTimer s = 79"
    by (auto simp: resetGame_eq init_game_def draw_fields)
  have r': "run demo_canvas (StartClick # replicate 79 (Tick demo_rnd)) (init_game demo_canvas) = Inr s"
    using r by simp
  have re: "reachable demo_canvas s"
    by (rule run_reachable [OF reach_init r'])
  obtain s' where u: "update demo_canvas demo_rnd s = Inr s'"
    using update_total by blast
  note t = spawn_interval_floor [OF re, of demo_rnd]
  have h: "handle demo_canvas (Tick demo_rnd) s = Inr s'" using u by simp
  from t have "\<forall>e s'. handle demo_canvas e s = Inr s' \<longrightarrow> 30 \<le> spawnInterval s'" by blast
  with h have "30 \<le> spawnInterval s'" by blast
  moreover from t s have "spawnInterval (spawn_bones demo_canvas demo_rnd s) = 79.5" by simp
  with update_spawnInterval [OF u] s have "spawnInterval s' = 79.5" by simp
  ultimately show ?thesis using r' re s u by simp
qed

section \<open>Steering the player\<close>

lemma targetX_hand:
  "useHandControl s \<Longrightarrow> handXNormalized s = Some hx \<Longrightarrow>
   targetX cv s = hx * (CANVAS_W cv - p_w (player s))"
  by (simp add: targetX_def Let_def)

lemma targetX_mouse:
  "\<not> (useHandControl s \<and> handXNormalized s \<noteq> None) \<Longrightarrow> mouseX s = Some m \<Longrightarrow>
   targetX cv s = m - p_w (player s) / 2"
  by (cases "handXNormalized s") (auto simp: targetX_def Let_def)

lemma targetX_keys:
  "\<not> (useHandControl s \<and> handXNormalized s \<noteq> None) \<Longrightarrow> mouseX s = None \<Longrightarrow>
   targetX cv s =
     p_x (player s)
     - (if truthy (keys s ''arrowleft'') \<or> truthy (keys s ''a'') then p_speed (player s) * 2 else 0)
     + (if truthy (keys s ''arrowright'') \<or> truthy (keys s ''d'') then p_speed (player s) * 2 else 0)"
  by (cases "handXNormalized s") (auto simp: targetX_def Let_def)

lemma update_player:
  "running s \<Longrightarrow>
   \<exists>s'. update cv rnd s = Inr s' \<and>
     player s' = (player s)\<lparr>p_x := max 0 (min (CANVAS_W cv - p_w (player s))
                   (p_x (player s) + (targetX cv s - p_x (player s)) * 0.25))\<rparr>"
  by (simp add: update_running draw_fields bones_result_fields player_before_loop)

text \<open>
  C6. The target of a tick is found with a fixed precedence. When hand control is on and
  a hand position \<open>hx\<close> is known, the target is \<open>hx * (CANVAS_W - player.w)\<close>, whatever the
  pointer and the keys say. Otherwise, when a pointer position is stored, the target is
  that position minus half the player's width, whatever the keys say. Only when neither
  is the case do the keys count: the target is the player's \<open>x\<close>, less \<open>2 * speed\<close>
  when a left key is held, plus \<open>2 * speed\<close> when a right key is held. The tick of a
  running game then moves the player a quarter of the way to the target of the state it
  started in, and clamps.
\<close>

theorem targetX_precedence:
  "(useHandControl s \<longrightarrow> handXNormalized s = Some hx \<longrightarrow>
      targetX cv s = hx * (CANVAS_W cv - p_w (player s))) \<and>
   (\<not> (useHandControl s \<and> handXNormalized s \<noteq> None) \<longrightarrow> mouseX s = Some m \<longrightarrow>
      targetX cv s = m - p_w (player s) / 2) \<and>
   (\<not> (useHandControl s \<and> handXNormalized s \<noteq> None) \<longrightarrow> mouseX s = None \<longrightarrow>
      targetX cv s =
        p_x (player s)
        - (if truthy (keys s ''arrowleft'') \<or> truthy (keys s ''a'') then p_speed (player s) * 2 else 0)
        + (if truthy (keys s ''arrowright'') \<or> truthy (keys s ''d'') then p_speed (player s) * 2 else 0)) \<and>
   (running s \<longrightarrow>
      (\<exists>s'. update cv rnd s = Inr s' \<and>
         p_x (player s') = max 0 (min (CANVAS_W cv - p_w (player s))
                   (p_x (player s) + (targetX cv s - p_x (player s)) * 0.25))))"
proof (intro conjI impI)
  assume "running s"
  from update_player [OF this, of cv rnd]
  show "\<exists>s'. update cv rnd s = Inr s' \<and>
         p_x (player s') = max 0 (min (CANVAS_W cv - p_w (player s))
                   (p_x (player s) + (targetX cv s - p_x (player s)) * 0.25))"
    by auto
qed (rule targetX_hand targetX_mouse targetX_keys; assumption)+

text \<open>The theorem at three sample states: keys only, keys and pointer, and keys, pointer
  and hand.\<close>

theorem targetX_precedence_witness:
  "targetX demo_canvas keys_game = 356 \<and>
   targetX demo_canvas mouse_game = 440 \<and>
   targetX demo_canvas hand_game = 680 \<and>
   running keys_game \<and>
   (case update demo_canvas demo_rnd keys_game of
      Inl e \<Rightarrow> False | Inr s' \<Rightarrow> p_x (player s') = 344)"
proof -
  note k = targetX_precedence [of keys_game 0 demo_canvas 0 demo_rnd]
  note m = targetX_precedence [of mouse_game 0 demo_canvas 500 demo_rnd]
  note h = targetX_precedence [of hand_game 1 demo_canvas 0 demo_rnd]
  have tk: "targetX demo_canvas keys_game = 356"
    using k by (simp add: keys_game_def demo_game_def truthy_def)
  have tm: "targetX demo_canvas mouse_game = 440"
    using m by (simp add: mouse_game_def keys_game_def demo_game_def)
  have th: "targetX demo_canvas hand_game = 680"
    using h by (simp add: hand_game_def mouse_game_def keys_game_def demo_game_def demo_canvas_def)
  have r: "running keys_game" by (simp add: keys_game_def demo_game_def)
  with k obtain s' where u: "update demo_canvas demo_rnd keys_game = Inr s'"
    and p: "p_x (player s') = max 0 (min (CANVAS_W demo_canvas - p_w (player keys_game))
        (p_x (player keys_game) + (targetX demo_canvas keys_game - p_x (player keys_game)) * 0.25))"
    by blast
  from p have "p_x (player s') = 344"
    unfolding tk by (simp add: keys_game_def demo_game_def demo_canvas_def)
  with tk tm th r u show ?thesis by simp
qed









section \<open>The order of a tick\<close>

lemma control_spawn_commute:
  "control_player cv (spawn_bones cv rnd s) = spawn_bones cv rnd (control_player cv s)"
proof -
  have "spawn_bones cv rnd (control_player cv s) =
      (spawn_bones cv rnd s)\<lparr>player := player (control_player cv s)\<rparr>"
    by (simp add: spawn_bones_eq control_player_eq)
  moreover have "control_player cv (spawn_bones cv rnd s) =
      (spawn_bones cv rnd s)\<lparr>player := player (control_player cv s)\<rparr>"
    unfolding control_player_eq [of cv "spawn_bones cv rnd s"] targetX_spawn spawn_bones_fields
    by (simp add: control_player_eq)
  ultimately show ?thesis by simp
qed

lemma update_frames: "\<exists>s'. update cv rnd s = Inr s' \<and> frames s' = frames s @ [snapshot cv s']"
proof (cases "running s")
  case True
  then show ?thesis
    by (simp add: update_running draw_fields bones_result_fields before_loop_fields)
      (simp add: draw_def snapshot_def)
next
  case False
  then show ?thesis by (simp add: update_stopped draw_def snapshot_def)
qed

text \<open>
  C8, as amended. Every tick draws exactly one frame, last, so the frame shows the state
  the tick ends in. A tick of a running game runs the spawner, then steers the player,
  then goes through the bones, then draws; spawning and steering act on different
  variables, so they commute and their order cannot be seen in the state. A tick of a
  game that is not running only draws.
\<close>

theorem tick_sections_in_order:
  "update cv rnd s =
     (if running s
      then case update_bones cv (control_player cv (spawn_bones cv rnd s)) of
             Inl e \<Rightarrow> Inl e | Inr s' \<Rightarrow> Inr (draw cv s')
      else Inr (draw cv s)) \<and>
   control_player cv (spawn_bones cv rnd s) = spawn_bones cv rnd (control_player cv s) \<and>
   (\<exists>s'. update cv rnd s = Inr s' \<and> frames s' = frames s @ [snapshot cv s'])"
  using update_sections [of cv rnd s] control_spawn_commute [of cv rnd s] update_frames [of cv rnd s]
  by simp

text \<open>
  C8 as stated fails on the code: in the loaded state, which is not running, the tick only
  draws, while the unconditional sequence of the claim would also advance the spawn timer.
\<close>

theorem unconditional_tick_counterexample:
  "update demo_canvas demo_rnd (init_game demo_canvas) = Inr (draw demo_canvas (init_game demo_canvas)) \<and>
   spec_tick demo_canvas demo_rnd (init_game demo_canvas) =
     Inr (draw demo_canvas ((init_game demo_canvas)\<lparr>spawnTimer := 1\<rparr>)) \<and>
   update demo_canvas demo_rnd (init_game demo_canvas) \<noteq>
     spec_tick demo_canvas demo_rnd (init_game demo_canvas)"
proof -
  let ?i = "init_game demo_canvas"
  have r: "\<not> running ?i" by (simp add: init_game_def draw_fields)
  have u: "update demo_canvas demo_rnd ?i = Inr (draw demo_canvas ?i)"
    using r by (rule update_stopped)
  have tx: "targetX demo_canvas ?i = 400"
    by (simp add: targetX_def init_game_def draw_def truthy_def demo_canvas_def)
  have cp: "control_player demo_canvas ?i = ?i"
    unfolding control_player_eq tx by (simp add: init_game_def draw_def demo_canvas_def)
  have sp: "spawn_bones demo_canvas demo_rnd ?i = ?i\<lparr>spawnTimer := 1\<rparr>"
    by (simp add: spawn_bones_eq init_game_def draw_def)
  have b: "bones (?i\<lparr>spawnTimer := 1\<rparr>) = []" by (simp add: init_game_def draw_def)
  have ub: "update_bones demo_canvas (?i\<lparr>spawnTimer := 1\<rparr>) = Inr (?i\<lparr>spawnTimer := 1\<rparr>)"
    unfolding update_bones_result b bones_result_Nil [OF b] by (rule refl)
  have st: "spec_tick demo_canvas demo_rnd ?i = Inr (draw demo_canvas (?i\<lparr>spawnTimer := 1\<rparr>))"
    unfolding spec_tick_def cp sp ub by simp
  have "spawnTimer (draw demo_canvas ?i) \<noteq> spawnTimer (draw demo_canvas (?i\<lparr>spawnTimer := 1\<rparr>))"
    by (simp add: draw_fields) (simp add: init_game_def draw_def)
  then have "draw demo_canvas ?i \<noteq> draw demo_canvas (?i\<lparr>spawnTimer := 1\<rparr>)" by metis
  with u st show ?thesis by simp
qed

section \<open>Two observations on the loop and the pointer\<close>

text \<open>
  C9. The loop over the bones does not look at \<open>running\<close>. With one life left and the
  last two bones both missed, the first pass leaves 0 lives and \<open>running\<close> false, the next
  pass leaves \<open>-1\<close> lives, and the loop still goes through all the bones in front: each of
  them that is missed costs one more life, and each of them that is caught still adds 10
  to the score.
\<close>

theorem loop_runs_past_game_over:
  assumes "lives s = 1" "bones s = pre @ [b1, b2]"
    "\<not> caught (player s) (fall b1)" "missed cv (fall b1)"
    "\<not> caught (player s) (fall b2)" "missed cv (fall b2)"
  shows "\<exists>s1 s2 s'.
     bone_iter cv (Suc (length pre)) s = Inr s1 \<and> lives s1 = 0 \<and> \<not> running s1 \<and>
     bone_iter cv (length pre) s1 = Inr s2 \<and> lives s2 = - 1 \<and>
     bones_loop cv (length pre) s2 = Inr s' \<and>
     update_bones cv s = Inr s' \<and> \<not> running s' \<and>
     lives s' = - 1 - int (n_missed cv (player s) pre) \<and>
     score s' = score s + 10 * int (n_caught (player s) pre)"
proof -
  let ?s1 = "s\<lparr>bones := (pre @ [b1]) @ [], lives := lives s - 1, livesEl := Some (lives s - 1),
                 running := running s \<and> 0 < lives s - 1,
                 alerts := (if lives s - 1 \<le> 0 then Suc (alerts s) else alerts s)\<rparr>"
  let ?s2 = "?s1\<lparr>bones := pre @ [], lives := lives ?s1 - 1, livesEl := Some (lives ?s1 - 1),
                 running := running ?s1 \<and> 0 < lives ?s1 - 1,
                 alerts := (if lives ?s1 - 1 \<le> 0 then Suc (alerts ?s1) else alerts ?s1)\<rparr>"
  let ?s' = "bones_result cv ?s2 pre []"
  from assms(2) have "bones s = (pre @ [b1]) @ b2 # []" by simp
  from bone_iter_at [OF this, of cv] assms(5,6)
  have i1: "bone_iter cv (Suc (length pre)) s = Inr ?s1" by simp
  have "bones ?s1 = pre @ b1 # []" by simp
  from bone_iter_at [OF this, of cv] assms(3,4)
  have i2: "bone_iter cv (length pre) ?s1 = Inr ?s2" by simp
  have "bones ?s2 = pre @ []" by simp
  from bones_loop_prefix [OF this, of cv]
  have l: "bones_loop cv (length pre) ?s2 = Inr ?s'" .
  have "update_bones cv s = bones_loop cv (Suc (Suc (length pre))) s"
    by (simp add: update_bones_def assms(2))
  also have "\<dots> = Inr ?s'"
    unfolding bones_loop.simps i1 sum.case i2 l by (rule refl)
  finally have ub: "update_bones cv s = Inr ?s'" .
  have f: "lives ?s1 = 0" "\<not> running ?s1" "lives ?s2 = - 1"
    "\<not> running ?s'" "lives ?s' = - 1 - int (n_missed cv (player s) pre)"
    "score ?s' = score s + 10 * int (n_caught (player s) pre)"
    using assms(1) by (simp_all add: bones_result_fields)
  from i1 i2 l ub f show ?thesis by blast
qed


text \<open>The theorem inside the tick of a game with one life, a bone above the player and
  two bones below the miss line: the tick ends with \<open>-1\<close> lives, \<open>running\<close> false and a
  score of 10.\<close>

theorem loop_runs_past_game_over_witness:
  "lives (demo_game [centre_bone, lost_bone, lost_bone] 1) = 1 \<and>
   running (demo_game [centre_bone, lost_bone, lost_bone] 1) \<and>
   (case update demo_canvas demo_rnd (demo_game [centre_bone, lost_bone, lost_bone] 1) of
      Inl e \<Rightarrow> False
    | Inr s' \<Rightarrow> \<not> running s' \<and> lives s' = - 1 \<and> score s' = 10)"
proof -
  let ?g = "demo_game [centre_bone, lost_bone, lost_bone] 1"
  let ?s = "?g\<lparr>spawnTimer := 1\<rparr>"
  have a: "lives ?s = 1" "bones ?s = [centre_bone] @ [lost_bone, lost_bone]"
    "\<not> caught (player ?s) (fall lost_bone)" "missed demo_canvas (fall lost_bone)"
    by (simp_all add: demo_game_def demo_canvas_def caught_def missed_def fall_def lost_bone_def)
  have n: "n_missed demo_canvas (player ?s) [centre_bone] = 0"
    "n_caught (player ?s) [centre_bone] = 1" "score ?s = 0"
    by (simp_all add: n_missed_def n_caught_def demo_game_def demo_canvas_def caught_def
        missed_def fall_def centre_bone_def)
  from loop_runs_past_game_over [OF a(1,2,3,4,3,4)] obtain s' where
    ub: "update_bones demo_canvas ?s = Inr s'" and
    f: "\<not> running s'" "lives s' = - 1 - int (n_missed demo_canvas (player ?s) [centre_bone])"
      "score s' = score ?s + 10 * int (n_caught (player ?s) [centre_bone])"
    by blast
  have r: "running ?g" "lives ?g = 1" by (simp_all add: demo_game_def)
  have "update demo_canvas demo_rnd ?g = Inr (draw demo_canvas s')"
    unfolding update_sections demo_before_loop ub using r(1) by simp
  with f r show ?thesis unfolding n by (simp add: draw_fields)
qed

lemma handle_mouseX:
  assumes "mouseX s \<noteq> None" "handle cv e s = Inr s'"
  shows "mouseX s' \<noteq> None"
proof (cases e)
  case (Tick rnd)
  with assms show ?thesis
    by (cases "running s")
      (auto simp: update_running update_stopped draw_fields bones_result_fields before_loop_fields)
next
  case (HandResults res)
  with assms show ?thesis
    by (auto simp: onResults_def split: option.splits list.splits if_splits)
next
  case (HandToggle t)
  with assms show ?thesis by (cases t) (auto simp: onToggle_def)
qed (use assms in \<open>auto simp: resetGame_eq\<close>)

lemma run_mouseX: "mouseX s \<noteq> None \<Longrightarrow> run cv es s = Inr s' \<Longrightarrow> mouseX s' \<noteq> None"
proof (induction es arbitrary: s)
  case Nil
  then show ?case by simp
next
  case (Cons e es)
  from Cons.prems(2) obtain s1 where h: "handle cv e s = Inr s1" and r: "run cv es s1 = Inr s'"
    by (auto split: sum.splits)
  from Cons.prems(1) h have "mouseX s1 \<noteq> None" by (rule handle_mouseX)
  then show ?case using r by (rule Cons.IH)
qed

lemma targetX_pointer:
  "mouseX s = Some m \<Longrightarrow> \<not> useHandControl s \<Longrightarrow>
   targetX cv (s\<lparr>keys := k\<rparr>) = m - p_w (player s) / 2"
  using targetX_mouse [of "s\<lparr>keys := k\<rparr>" m cv] by simp

lemma update_keys:
  assumes "targetX cv (s\<lparr>keys := k1\<rparr>) = targetX cv (s\<lparr>keys := k2\<rparr>)"
  shows "\<exists>s1 s2. update cv rnd (s\<lparr>keys := k1\<rparr>) = Inr s1 \<and>
           update cv rnd (s\<lparr>keys := k2\<rparr>) = Inr s2 \<and>
           player s1 = player s2 \<and> bones s1 = bones s2 \<and>
           score s1 = score s2 \<and> lives s1 = lives s2"
proof (cases "running s")
  case False
  then show ?thesis by (simp add: update_stopped draw_fields)
next
  case True
  have b: "bones (spawn_bones cv rnd (s\<lparr>keys := k\<rparr>)) = bones (spawn_bones cv rnd s)" for k
    by (simp add: spawn_bones_eq)
  from True have r: "running (s\<lparr>keys := k\<rparr>)" for k by simp
  show ?thesis
    using assms
    by (simp add: update_running [OF r] draw_fields bones_result_fields before_loop_fields
        player_before_loop b)
qed

text \<open>
  C10. A mouse move stores a pointer position, and no sequence of events ever clears a
  stored pointer position. With a stored pointer position \<open>m\<close> and hand control off, the
  target is \<open>m - player.w / 2\<close> whatever the keys are, and two ticks from states that
  differ only in their keys end with the same player (and the same bones, score and
  lives).
\<close>

theorem pointer_overrides_keys:
  "handle cv (MouseMove clientX left) s = Inr (s\<lparr>mouseX := Some (clientX - left)\<rparr>) \<and>
   (mouseX s \<noteq> None \<longrightarrow> run cv es s = Inr s' \<longrightarrow> mouseX s' \<noteq> None) \<and>
   (mouseX s = Some m \<longrightarrow> \<not> useHandControl s \<longrightarrow>
      targetX cv (s\<lparr>keys := k1\<rparr>) = m - p_w (player s) / 2) \<and>
   (mouseX s \<noteq> None \<longrightarrow> \<not> useHandControl s \<longrightarrow>
      (\<exists>s1 s2. update cv rnd (s\<lparr>keys := k1\<rparr>) = Inr s1 \<and>
           update cv rnd (s\<lparr>keys := k2\<rparr>) = Inr s2 \<and>
           player s1 = player s2 \<and> bones s1 = bones s2 \<and>
           score s1 = score s2 \<and> lives s1 = lives s2))"
proof (intro conjI impI)
  show "handle cv (MouseMove clientX left) s = Inr (s\<lparr>mouseX := Some (clientX - left)\<rparr>)"
    by simp
next
  assume "mouseX s \<noteq> None" "run cv es s = Inr s'"
  then show "mouseX s' \<noteq> None" by (rule run_mouseX)
next
  assume "mouseX s = Some m" "\<not> useHandControl s"
  then show "targetX cv (s\<lparr>keys := k1\<rparr>) = m - p_w (player s) / 2" by (rule targetX_pointer)
next
  assume a: "mouseX s \<noteq> None" "\<not> useHandControl s"
  then obtain m where "mouseX s = Some m" by blast
  with a(2) have "targetX cv (s\<lparr>keys := k1\<rparr>) = targetX cv (s\<lparr>keys := k2\<rparr>)"
    by (simp add: targetX_pointer)
  then show "\<exists>s1 s2. update cv rnd (s\<lparr>keys := k1\<rparr>) = Inr s1 \<and>
           update cv rnd (s\<lparr>keys := k2\<rparr>) = Inr s2 \<and>
           player s1 = player s2 \<and> bones s1 = bones s2 \<and>
           score s1 = score s2 \<and> lives s1 = lives s2"
    by (rule update_keys)
qed

text \<open>The theorem at the sample state with the pointer at 500, once with the left arrow
  held and once with the right arrow held.\<close>

theorem pointer_overrides_keys_witness:
  "mouseX mouse_game = Some 500 \<and> \<not> useHandControl mouse_game \<and>
   targetX demo_canvas (mouse_game\<lparr>keys := [''arrowleft'' \<mapsto> True]\<rparr>) = 440 \<and>
   (case update demo_canvas demo_rnd (mouse_game\<lparr>keys := [''arrowleft'' \<mapsto> True]\<rparr>) of
      Inl e \<Rightarrow> False
    | Inr s1 \<Rightarrow>
       (case update demo_canvas demo_rnd (mouse_game\<lparr>keys := [''arrowright'' \<mapsto> True]\<rparr>) of
          Inl e \<Rightarrow> False
        | Inr s2 \<Rightarrow> player s1 = player s2)) \<and>
   (case run demo_canvas [KeyDown ''A'', Tick demo_rnd] mouse_game of
      Inl e \<Rightarrow> False
    | Inr s' \<Rightarrow> mouseX s' \<noteq> None)"
proof -
  have m: "mouseX mouse_game = Some 500" "mouseX mouse_game \<noteq> None" "\<not> useHandControl mouse_game"
    "p_w (player mouse_game) = 120"
    by (simp_all add: mouse_game_def keys_game_def demo_game_def)
  obtain s' where u: "update demo_canvas demo_rnd
      (mouse_game\<lparr>keys := (keys mouse_game)(toLowerCase ''A'' \<mapsto> True)\<rparr>) = Inr s'"
    using update_total by blast
  then have r: "run demo_canvas [KeyDown ''A'', Tick demo_rnd] mouse_game = Inr s'" by simp
  note t = pointer_overrides_keys [of demo_canvas _ _ mouse_game "[KeyDown ''A'', Tick demo_rnd]" s'
      500 "[''arrowleft'' \<mapsto> True]" demo_rnd "[''arrowright'' \<mapsto> True]"]
  from t m r have "mouseX s' \<noteq> None" by blast
  moreover from t m have "targetX demo_canvas (mouse_game\<lparr>keys := [''arrowleft'' \<mapsto> True]\<rparr>) = 440"
    by simp
  moreover from t m obtain s1 s2 where
    "update demo_canvas demo_rnd (mouse_game\<lparr>keys := [''arrowleft'' \<mapsto> True]\<rparr>) = Inr s1"
    "update demo_canvas demo_rnd (mouse_game\<lparr>keys := [''arrowright'' \<mapsto> True]\<rparr>) = Inr s2"
    "player s1 = player s2" by blast
  ultimately show ?thesis using m r by simp
qed

end
